theory Spec2Isabelle
  imports Main "HOL-Library.AList" "HOL-Library.Sublist"
begin

section \<open>JavaScript strings\<close>

text \<open>
  A JavaScript string is modelled as a \<open>string\<close> (a list of 8-bit characters), read as
  ASCII text: the letters that change case are \<open>a\<close>..\<open>z\<close> and \<open>A\<close>..\<open>Z\<close>, and the white
  space that \<open>trim\<close> and the regular expression class \<open>\s\<close> remove is tab, line feed,
  vertical tab, form feed, carriage return and space. Characters beyond ASCII are kept,
  never trimmed and never changed in case.
\<close>

definition isSpace :: "char \<Rightarrow> bool" where
  "isSpace c = (c \<in> set [CHR 0x09, CHR 0x0A, CHR 0x0B, CHR 0x0C, CHR 0x0D, CHR 0x20])"

definition isDigit :: "char \<Rightarrow> bool" where
  "isDigit c = (c \<in> set ''0123456789'')"

definition trimStart :: "string \<Rightarrow> string" where
  "trimStart s = dropWhile isSpace s"

definition trimEnd :: "string \<Rightarrow> string" where
  "trimEnd s = rev (dropWhile isSpace (rev s))"

text \<open>\<^verbatim>\<open>String.prototype.trim\<close>\<close>

definition trim :: "string \<Rightarrow> string" where
  "trim s = trimEnd (trimStart s)"

definition toUpperChar :: "char \<Rightarrow> char" where
  "toUpperChar c =
     (case map_of (zip ''abcdefghijklmnopqrstuvwxyz'' ''ABCDEFGHIJKLMNOPQRSTUVWXYZ'') c of
        Some u \<Rightarrow> u
      | None \<Rightarrow> c)"

definition toLowerChar :: "char \<Rightarrow> char" where
  "toLowerChar c =
     (case map_of (zip ''ABCDEFGHIJKLMNOPQRSTUVWXYZ'' ''abcdefghijklmnopqrstuvwxyz'') c of
        Some l \<Rightarrow> l
      | None \<Rightarrow> c)"

definition toUpperCase :: "string \<Rightarrow> string" where
  "toUpperCase s = map toUpperChar s"

definition toLowerCase :: "string \<Rightarrow> string" where
  "toLowerCase s = map toLowerChar s"

text \<open>\<^verbatim>\<open>s.includes(pat)\<close>: \<open>pat\<close> occurs in \<open>s\<close> as a contiguous run.\<close>

fun str_includes :: "string \<Rightarrow> string \<Rightarrow> bool" where
  "str_includes [] pat = (pat = [])"
| "str_includes (c # cs) pat = (prefix pat (c # cs) \<or> str_includes cs pat)"

text \<open>
  \<^verbatim>\<open>text.split(/\r?\n/)\<close>: a line feed ends a line, and a carriage return right before
  it belongs to the separator. The empty text has the one line \<open>''''\<close>.
\<close>

fun splitLines :: "string \<Rightarrow> string list" where
  "splitLines [] = [[]]"
| "splitLines (c # cs) =
     (if c = CHR 0x0A then [] # splitLines cs
      else if c = CHR 0x0D \<and> cs \<noteq> [] \<and> hd cs = CHR 0x0A then [] # splitLines (tl cs)
      else (case splitLines cs of
              [] \<Rightarrow> [[c]]
            | l # ls \<Rightarrow> (c # l) # ls))"

section \<open>Numbers\<close>

text \<open>
  A JavaScript number is modelled as an exact decimal: \<open>Finite m k\<close> is \<open>m / 10^k\<close>, kept
  normal (no trailing zero in the fraction), so that equal values are equal terms. The
  rounding of a decimal to a binary64 double, the range of doubles and the sign of zero
  are not modelled.
\<close>

datatype jsnum = NaN | Infinity bool | Finite int nat

fun normalise :: "int \<Rightarrow> nat \<Rightarrow> jsnum" where
  "normalise m 0 = Finite m 0"
| "normalise m (Suc k) = (if m mod 10 = 0 then normalise (m div 10) k else Finite m (Suc k))"

definition digitVal :: "char \<Rightarrow> int" where
  "digitVal c =
     (case map_of (zip ''0123456789'' [0, 1, 2, 3, 4, 5, 6, 7, 8, 9]) c of
        Some d \<Rightarrow> d
      | None \<Rightarrow> 0)"

definition digitsVal :: "string \<Rightarrow> int" where
  "digitsVal ds = foldl (\<lambda>n c. 10 * n + digitVal c) 0 ds"

text \<open>The exponent part of a decimal literal: \<open>e\<close> or \<open>E\<close>, a sign, digits; 0 when absent.\<close>

definition exponentOf :: "string \<Rightarrow> int" where
  "exponentOf r =
     (case r of
        [] \<Rightarrow> 0
      | c # r1 \<Rightarrow>
          if c = CHR ''e'' \<or> c = CHR ''E'' then
            (let neg = (r1 \<noteq> [] \<and> hd r1 = CHR ''-'');
                 r2 = (if r1 \<noteq> [] \<and> (hd r1 = CHR ''-'' \<or> hd r1 = CHR ''+'') then tl r1 else r1);
                 ds = takeWhile isDigit r2
             in if ds = [] then 0
                else if neg then - digitsVal ds else digitsVal ds)
          else 0)"

definition scaled :: "int \<Rightarrow> nat \<Rightarrow> int \<Rightarrow> jsnum" where
  "scaled m k e =
     (if 0 \<le> e then
        (if k \<le> nat e then normalise (m * 10 ^ (nat e - k)) 0 else normalise m (k - nat e))
      else normalise m (k + nat (- e)))"

text \<open>
  \<^verbatim>\<open>parseFloat\<close>: leading white space is skipped, then the longest prefix that is a
  decimal literal is read (a sign, \<open>Infinity\<close> or digits with an optional fraction and
  exponent); \<open>NaN\<close> when there is no such prefix.
\<close>

definition parseFloat :: "string \<Rightarrow> jsnum" where
  "parseFloat s =
     (let t = trimStart s;
          neg = (t \<noteq> [] \<and> hd t = CHR ''-'');
          u = (if t \<noteq> [] \<and> (hd t = CHR ''-'' \<or> hd t = CHR ''+'') then tl t else t)
      in if prefix ''Infinity'' u then Infinity neg
         else
           (let ip = takeWhile isDigit u;
                r1 = dropWhile isDigit u;
                hasDot = (r1 \<noteq> [] \<and> hd r1 = CHR ''.'');
                fp = (if hasDot then takeWhile isDigit (tl r1) else []);
                r2 = (if hasDot then dropWhile isDigit (tl r1) else r1);
                m = digitsVal (ip @ fp)
            in if ip = [] \<and> fp = [] then NaN
               else scaled (if neg then - m else m) (length fp) (exponentOf r2)))"

fun showNat :: "nat \<Rightarrow> string" where
  "showNat n =
     (if n < 10 then [''0123456789'' ! n]
      else showNat (n div 10) @ [''0123456789'' ! (n mod 10)])"

declare showNat.simps [simp del]

text \<open>\<^verbatim>\<open>Number.prototype.toString\<close>, in plain decimal notation.\<close>

definition numToString :: "jsnum \<Rightarrow> string" where
  "numToString x =
     (case x of
        NaN \<Rightarrow> ''NaN''
      | Infinity neg \<Rightarrow> (if neg then ''-Infinity'' else ''Infinity'')
      | Finite m k \<Rightarrow>
          (let a = nat \<bar>m\<bar>;
               ip = showNat (a div 10 ^ k);
               fp = showNat (a mod 10 ^ k)
           in (if m < 0 then ''-'' else '''') @ ip @
              (if k = 0 then '''' else ''.'' @ replicate (k - length fp) CHR ''0'' @ fp)))"

section \<open>The category classifier\<close>

text \<open>\<^verbatim>\<open>getSheetName\<close>: the chain of \<open>includes\<close> tests on the upper-cased file name.\<close>

definition getSheetName :: "string \<Rightarrow> string option" where
  "getSheetName fileName =
     (let u = toUpperCase fileName
      in if str_includes u ''HSN'' then Some ''hsn''
         else if str_includes u ''B2CL'' then Some ''b2cl''
         else if str_includes u ''B2CS'' then Some ''b2cs''
         else if str_includes u ''B2B'' then Some ''b2b''
         else if str_includes u ''EXP'' then Some ''export''
         else if str_includes u ''EXEMP'' then Some ''Nil_exempt_NonGST''
         else if str_includes u ''CDNUR'' then Some ''cdnur''
         else if str_includes u ''CDNR'' then Some ''cdnr''
         else None)"



section \<open>The value normaliser\<close>

text \<open>\<^verbatim>\<open>s.replace(/^\d+-\s*/, '')\<close>\<close>

definition stripNumericPrefix :: "string \<Rightarrow> string" where
  "stripNumericPrefix s =
     (let ds = takeWhile isDigit s;
          r = dropWhile isDigit s
      in if ds \<noteq> [] \<and> r \<noteq> [] \<and> hd r = CHR ''-'' then dropWhile isSpace (tl r) else s)"

definition cleanPlaceOfSupply :: "string \<Rightarrow> string" where
  "cleanPlaceOfSupply v = trim (stripNumericPrefix (trim v))"

text \<open>\<^verbatim>\<open>s.replace(/,/g, '')\<close>\<close>

definition stripCommas :: "string \<Rightarrow> string" where
  "stripCommas s = filter (\<lambda>c. c \<noteq> CHR '','') s"

text \<open>\<^verbatim>\<open>s.match(/^-?\d+\.?\d*$/)\<close>\<close>

definition strictNumeric :: "string \<Rightarrow> bool" where
  "strictNumeric s =
     (let u = (if s \<noteq> [] \<and> hd s = CHR ''-'' then tl s else s);
          ds = takeWhile isDigit u;
          r = dropWhile isDigit u;
          f = (if r \<noteq> [] \<and> hd r = CHR ''.'' then tl r else r)
      in ds \<noteq> [] \<and> list_all isDigit f)"

datatype cell = TextCell string | NumCell jsnum | BoolCell bool | StubCell

text \<open>
  The cell that \<^verbatim>\<open>appendDataToSheet\<close> writes for a non-empty value: numeric when the
  parse is a number and the value matches the pattern, text otherwise.
\<close>

definition typedCell :: "string \<Rightarrow> cell" where
  "typedCell finalValue =
     (let numValue = parseFloat (stripCommas finalValue)
      in if numValue \<noteq> NaN \<and> strictNumeric finalValue then NumCell numValue
         else TextCell (trim finalValue))"

definition isPlaceOfSupply :: "string \<Rightarrow> bool" where
  "isPlaceOfSupply templateHeader = str_includes (toLowerCase templateHeader) ''place of supply''"

definition writeCell :: "string \<Rightarrow> string \<Rightarrow> cell" where
  "writeCell templateHeader csvValue =
     (if csvValue = [] then TextCell []
      else typedCell (if isPlaceOfSupply templateHeader then cleanPlaceOfSupply csvValue
                      else csvValue))"

section \<open>The delimited record parser\<close>

text \<open>
  A record is a JavaScript object with string values: an association list in insertion
  order, where assigning to a key that is present replaces its value in place
  (\<open>AList.update\<close>). Keys are taken to be ordinary names: the properties an object
  inherits from its prototype and the numeric order of integer-like keys are not
  modelled.
\<close>

type_synonym csvRecord = "(string \<times> string) list"

fun parseLineLoop :: "string \<Rightarrow> string list \<Rightarrow> string \<Rightarrow> bool \<Rightarrow> string list" where
  "parseLineLoop [] result current inQuotes = result @ [trim current]"
| "parseLineLoop (char # rest) result current inQuotes =
     (if char = CHR 0x22 then parseLineLoop rest result current (\<not> inQuotes)
      else if char = CHR '','' \<and> \<not> inQuotes
        then parseLineLoop rest (result @ [trim current]) [] inQuotes
      else parseLineLoop rest result (current @ [char]) inQuotes)"

definition parseLine :: "string \<Rightarrow> string list" where
  "parseLine line = parseLineLoop line [] [] False"

text \<open>\<^verbatim>\<open>values[i] || ''\<close>\<close>

definition fieldAt :: "string list \<Rightarrow> nat \<Rightarrow> string" where
  "fieldAt vals i = (if i < length vals then vals ! i else [])"

text \<open>\<^verbatim>\<open>headers.forEach((h, i) => { row[h] = values[i] || ''; })\<close>\<close>

fun fillRow :: "string list \<Rightarrow> nat \<Rightarrow> string list \<Rightarrow> csvRecord \<Rightarrow> csvRecord" where
  "fillRow [] i vals row = row"
| "fillRow (h # hs) i vals row = fillRow hs (Suc i) vals (AList.update h (fieldAt vals i) row)"

definition parseCSV :: "string \<Rightarrow> csvRecord list" where
  "parseCSV text =
     (let lines = splitLines (trim text)
      in if length lines \<le> 1 then []
         else
           (let headers = parseLine (hd lines)
            in map (\<lambda>line. fillRow headers 0 (parseLine line) [])
                 (filter (\<lambda>l. trim l \<noteq> []) (tl lines))))"

definition trimAll :: "csvRecord \<Rightarrow> csvRecord" where
  "trimAll obj = map (\<lambda>(k, v). (k, trim v)) obj"

section \<open>The schema registry\<close>

text \<open>
  \<^verbatim>\<open>columnMappings\<close>: for each sheet name, the entries (source field, template column or
  columns) in the order the object literal lists them; \<^verbatim>\<open>columnMappings[sheetName] || {}\<close>
  is the empty list for any other name.
\<close>

datatype excelCol = One string | Many "string list"

text \<open>\<^verbatim>\<open>Array.isArray(excelCol) ? excelCol : [excelCol]\<close>\<close>

definition excelCols :: "excelCol \<Rightarrow> string list" where
  "excelCols e = (case e of One s \<Rightarrow> [s] | Many ss \<Rightarrow> ss)"

type_synonym columnMapping = "(string \<times> excelCol) list"

definition mapping_b2b :: columnMapping where
  "mapping_b2b =
     [(''GSTIN/UIN of Recipient'', One ''GSTIN/UIN''),
      (''Invoice Number'', One ''Invoice No''),
      (''Invoice date'', One ''Date of Invoice''),
      (''Invoice Value'', One ''Invoice Value''),
      (''Rate'', One ''GST%''),
      (''Taxable Value'', One ''Taxable Value''),
      (''Cess Amount'', One ''CESS''),
      (''Place Of Supply'', One ''Place Of Supply''),
      (''Reverse Charge'', One ''RCM Applicable''),
      (''Invoice Type'', One ''Invoice Type''),
      (''E-Commerce GSTIN'', One ''E-Commerce GSTIN'')]"

definition mapping_b2cl :: columnMapping where
  "mapping_b2cl =
     [(''Invoice Number'', One ''Invoice No''),
      (''Invoice date'', One ''Date of Invoice''),
      (''Invoice Value'', One ''Invoice Value''),
      (''Place Of Supply'', One ''Place Of Supply''),
      (''Rate'', One ''GST%''),
      (''Taxable Value'', One ''Taxable Value''),
      (''Cess Amount'', One ''CESS''),
      (''E-Commerce GSTIN'', One ''E-Commerce GSTIN'')]"

definition mapping_b2cs :: columnMapping where
  "mapping_b2cs =
     [(''Type'', One ''Type''),
      (''Place Of Supply'', One ''Place Of Supply''),
      (''Rate'', One ''GST%''),
      (''Taxable Value'', One ''Taxable Value''),
      (''Cess Amount'', One ''CESS''),
      (''E-Commerce GSTIN'', One ''E-Commerce GSTIN'')]"

definition mapping_export :: columnMapping where
  "mapping_export =
     [(''Export Type'', One ''Export Type''),
      (''Invoice Number'', One ''Invoice No''),
      (''Invoice date'', One ''Date of Invoice''),
      (''Invoice Value'', One ''Invoice Value''),
      (''Port Code'', One ''Port Code''),
      (''Shipping Bill Number'', One ''Shipping Bill No''),
      (''Shipping Bill Date'', One ''Shipping Bill Date''),
      (''Rate'', One ''GST%''),
      (''Taxable Value'', One ''Taxable Value'')]"

definition mapping_Nil_exempt_NonGST :: columnMapping where
  "mapping_Nil_exempt_NonGST =
     [(''Description'', One ''Description''),
      (''Nil Rated Supplies'', One ''Nil Rated Supplies''),
      (''Exempted (other than nil rated/non GST supply)'',
         One ''Exempted (other than nil rated/non GST supply)''),
      (''Non-GST supplies'', One ''Non-GST Supplies'')]"

definition mapping_cdnr :: columnMapping where
  "mapping_cdnr =
     [(''GSTIN/UIN of Recipient'', One ''GSTIN/UIN''),
      (''Note Number'', One ''Dr./ Cr. No.''),
      (''Note Date'', One ''Dr./Cr. Date''),
      (''Note Type'', One ''Type of note                (Dr/ Cr)''),
      (''Place Of Supply'', One ''Place of supply''),
      (''Reverse Charge'', One ''RCM''),
      (''Note Supply Type'', One ''Invoice Type''),
      (''Note Value'', One ''Dr./Cr. Value''),
      (''Rate'', One ''GST%''),
      (''Taxable Value'', One ''Taxable Value''),
      (''Cess Amount'', One ''CESS'')]"

definition mapping_cdnur :: columnMapping where
  "mapping_cdnur =
     [(''UR Type'', One ''Supply Type''),
      (''Note/Refund Voucher Number'', One ''Dr./ Cr. Note No.''),
      (''Note/Refund Voucher date'', One ''Dr./ Cr. Note Date''),
      (''Document Type'', One ''Type of note (Dr./ Cr.)''),
      (''Place Of Supply'', One ''Place of supply''),
      (''Note/Refund Voucher Value'', One ''Dr./Cr. Note Value''),
      (''Rate'', One ''GST%''),
      (''Taxable Value'', One ''Taxable Value''),
      (''Cess Amount'', One ''CESS'')]"

definition mapping_hsn :: columnMapping where
  "mapping_hsn =
     [(''Type'', One ''Type''),
      (''HSN'', One ''HSN''),
      (''Description'', One ''Description''),
      (''UQC'', One ''UQC''),
      (''Total Quantity'', One ''Total Quantity''),
      (''Total Value'', One ''Total Value''),
      (''Rate'', One ''Rate''),
      (''Taxable Value'', One ''Total Taxable Value''),
      (''Integrated Tax Amount'', One ''IGST''),
      (''Central Tax Amount'', One ''CGST''),
      (''State/UT Tax Amount'', One ''SGST''),
      (''Cess Amount'', One ''CESS'')]"

definition columnMappings :: "string \<Rightarrow> columnMapping" where
  "columnMappings sheetName =
     (if sheetName = ''b2b'' then mapping_b2b
      else if sheetName = ''b2cl'' then mapping_b2cl
      else if sheetName = ''b2cs'' then mapping_b2cs
      else if sheetName = ''export'' then mapping_export
      else if sheetName = ''Nil_exempt_NonGST'' then mapping_Nil_exempt_NonGST
      else if sheetName = ''cdnr'' then mapping_cdnr
      else if sheetName = ''cdnur'' then mapping_cdnur
      else if sheetName = ''hsn'' then mapping_hsn
      else [])"

section \<open>Sheets\<close>

text \<open>
  A worksheet of the spreadsheet library is an object from cell addresses to cells, with
  its used range under \<^verbatim>\<open>'!ref'\<close>. A cell address is the pair (row, column), both counted
  from 0. \<open>TextCell s\<close> is \<^verbatim>\<open>{t:'s', v:s}\<close>, \<open>NumCell x\<close> is \<^verbatim>\<open>{t:'n', v:x}\<close>, \<open>BoolCell b\<close> is
  \<^verbatim>\<open>{t:'b', v:b}\<close> and \<open>StubCell\<close> is a cell without a value.
\<close>

record range =
  s_r :: nat
  s_c :: nat
  e_r :: nat
  e_c :: nat

record sheet =
  cells :: "nat \<times> nat \<Rightarrow> cell option"
  ref :: "range option"

text \<open>\<^verbatim>\<open>XLSX.utils.decode_range(sheet['!ref'] || 'A1')\<close>\<close>

definition decode_ref :: "sheet \<Rightarrow> range" where
  "decode_ref sheet =
     (case ref sheet of
        Some r \<Rightarrow> r
      | None \<Rightarrow> \<lparr>s_r = 0, s_c = 0, e_r = 0, e_c = 0\<rparr>)"

text \<open>\<^verbatim>\<open>cell?.v?.toString().trim() ?? ''\<close>\<close>

definition headerText :: "cell option \<Rightarrow> string" where
  "headerText c =
     (case c of
        None \<Rightarrow> []
      | Some (TextCell s) \<Rightarrow> trim s
      | Some (NumCell x) \<Rightarrow> trim (numToString x)
      | Some (BoolCell b) \<Rightarrow> (if b then ''true'' else ''false'')
      | Some StubCell \<Rightarrow> [])"

text \<open>\<^verbatim>\<open>cell?.v !== undefined && cell?.v !== null && cell?.v !== ''\<close>\<close>

definition cellHasData :: "cell option \<Rightarrow> bool" where
  "cellHasData c =
     (case c of
        None \<Rightarrow> False
      | Some (TextCell s) \<Rightarrow> s \<noteq> []
      | Some (NumCell x) \<Rightarrow> True
      | Some (BoolCell b) \<Rightarrow> True
      | Some StubCell \<Rightarrow> False)"

definition templateHeaders :: "sheet \<Rightarrow> string list" where
  "templateHeaders sheet =
     map (\<lambda>col. headerText (cells sheet (0, col)))
       [s_c (decode_ref sheet) ..< Suc (e_c (decode_ref sheet))]"

definition rowHasData :: "sheet \<Rightarrow> nat \<Rightarrow> bool" where
  "rowHasData sheet row =
     list_ex (\<lambda>col. cellHasData (cells sheet (row, col)))
       [s_c (decode_ref sheet) ..< Suc (e_c (decode_ref sheet))]"

text \<open>The scan for the append start row, over the rows 1 to \<open>range.e.r\<close>.\<close>

definition startRow :: "sheet \<Rightarrow> nat" where
  "startRow sheet =
     foldl (\<lambda>start row. if rowHasData sheet row then row + 1 else start) 1
       [1 ..< Suc (e_r (decode_ref sheet))]"

section \<open>The sheet merger\<close>

text \<open>
  The loop over \<^verbatim>\<open>Object.entries(mapping)\<close>: the value of the first entry whose template
  columns include the header and whose source field the record has.
\<close>

fun aliasValue :: "columnMapping \<Rightarrow> csvRecord \<Rightarrow> string \<Rightarrow> string" where
  "aliasValue [] csvRow templateHeader = []"
| "aliasValue ((csvCol, excelCol) # rest) csvRow templateHeader =
     (case (if templateHeader \<in> set (excelCols excelCol) then map_of csvRow csvCol else None) of
        Some v \<Rightarrow> v
      | None \<Rightarrow> aliasValue rest csvRow templateHeader)"

definition resolveValue :: "columnMapping \<Rightarrow> csvRecord \<Rightarrow> string \<Rightarrow> string" where
  "resolveValue mapping csvRow templateHeader =
     (case map_of csvRow templateHeader of
        Some v \<Rightarrow> v
      | None \<Rightarrow> aliasValue mapping csvRow templateHeader)"

text \<open>\<^verbatim>\<open>templateHeaders.forEach((templateHeader, colIndex) => ...)\<close> for one record.\<close>

fun writeCols ::
  "columnMapping \<Rightarrow> csvRecord \<Rightarrow> nat \<Rightarrow> string list \<Rightarrow> nat \<Rightarrow>
   (nat \<times> nat \<Rightarrow> cell option) \<Rightarrow> (nat \<times> nat \<Rightarrow> cell option)" where
  "writeCols mapping csvRow excelRow [] colIndex cs = cs"
| "writeCols mapping csvRow excelRow (templateHeader # hs) colIndex cs =
     writeCols mapping csvRow excelRow hs (Suc colIndex)
       (if templateHeader = [] then cs
        else cs((excelRow, colIndex) \<mapsto>
               writeCell templateHeader (resolveValue mapping csvRow templateHeader)))"

text \<open>\<^verbatim>\<open>data.forEach((csvRow, rowIndex) => ...)\<close>, with \<open>excelRow = startRow + rowIndex\<close>.\<close>

fun writeRows ::
  "columnMapping \<Rightarrow> string list \<Rightarrow> nat \<Rightarrow> csvRecord list \<Rightarrow> nat \<Rightarrow>
   (nat \<times> nat \<Rightarrow> cell option) \<Rightarrow> (nat \<times> nat \<Rightarrow> cell option)" where
  "writeRows mapping hs start [] rowIndex cs = cs"
| "writeRows mapping hs start (csvRow # rest) rowIndex cs =
     writeRows mapping hs start rest (Suc rowIndex)
       (writeCols mapping csvRow (start + rowIndex) hs 0 cs)"

definition appendDataToSheet :: "sheet \<Rightarrow> csvRecord list \<Rightarrow> columnMapping \<Rightarrow> sheet" where
  "appendDataToSheet sheet data mapping =
     (if data = [] then sheet
      else sheet
        \<lparr>cells := writeRows mapping (templateHeaders sheet) (startRow sheet) data 0 (cells sheet),
         ref := Some ((decode_ref sheet)\<lparr>e_r := startRow sheet + length data - 1\<rparr>)\<rparr>)"

subsection \<open>A fresh sheet from the records\<close>

text \<open>
  \<^verbatim>\<open>XLSX.utils.json_to_sheet(data)\<close> of the spreadsheet library, for records with string
  values: the header collects the keys in the order they are met, record \<open>R\<close> is written
  to row \<open>R + 1\<close> with every value as a text cell, and row 0 receives the header names.
\<close>

text \<open>\<^verbatim>\<open>hdr.indexOf(k)\<close>, with \<open>None\<close> for -1.\<close>

fun indexOf :: "string list \<Rightarrow> string \<Rightarrow> nat option" where
  "indexOf [] k = None"
| "indexOf (x # xs) k = (if x = k then Some 0 else map_option Suc (indexOf xs k))"

fun jsonKeys ::
  "nat \<Rightarrow> csvRecord \<Rightarrow> string list \<times> (nat \<times> nat \<Rightarrow> cell option) \<Rightarrow>
   string list \<times> (nat \<times> nat \<Rightarrow> cell option)" where
  "jsonKeys R [] st = st"
| "jsonKeys R ((k, v) # kvs) (hdr, cs) =
     (case indexOf hdr k of
        None \<Rightarrow> jsonKeys R kvs (hdr @ [k], cs((R + 1, length hdr) \<mapsto> TextCell v))
      | Some C \<Rightarrow> jsonKeys R kvs (hdr, cs((R + 1, C) \<mapsto> TextCell v)))"

fun jsonRows ::
  "nat \<Rightarrow> csvRecord list \<Rightarrow> string list \<times> (nat \<times> nat \<Rightarrow> cell option) \<Rightarrow>
   string list \<times> (nat \<times> nat \<Rightarrow> cell option)" where
  "jsonRows R [] st = st"
| "jsonRows R (JS # rest) st = jsonRows (Suc R) rest (jsonKeys R JS st)"

fun headerCells ::
  "string list \<Rightarrow> nat \<Rightarrow> (nat \<times> nat \<Rightarrow> cell option) \<Rightarrow> (nat \<times> nat \<Rightarrow> cell option)" where
  "headerCells [] C cs = cs"
| "headerCells (h # hs) C cs = headerCells hs (Suc C) (cs((0, C) \<mapsto> TextCell h))"

definition json_to_sheet :: "csvRecord list \<Rightarrow> sheet" where
  "json_to_sheet js =
     (let st = jsonRows 0 js ([], Map.empty)
      in \<lparr>cells = headerCells (fst st) 0 (snd st),
          ref = Some \<lparr>s_r = 0, s_c = 0, e_r = length js, e_c = length (fst st) - 1\<rparr>\<rparr>)"

section \<open>Workbooks and the document assembler\<close>

record workbook =
  SheetNames :: "string list"
  Sheets :: "string \<Rightarrow> sheet option"

datatype error = WorksheetExists string | WorkbookIsEmpty

text \<open>\<^verbatim>\<open>XLSX.utils.book_new()\<close>\<close>

definition book_new :: workbook where
  "book_new = \<lparr>SheetNames = [], Sheets = Map.empty\<rparr>"

text \<open>
  \<^verbatim>\<open>XLSX.utils.book_append_sheet(wb, ws, name)\<close> of the library: it raises when the name is
  already listed, and otherwise lists the name last and stores the sheet under it. (Its
  limit of 65535 sheets and its check of the name's characters are not modelled: the
  names here are the eight category names.)
\<close>

definition book_append_sheet :: "workbook \<Rightarrow> sheet \<Rightarrow> string \<Rightarrow> error + workbook" where
  "book_append_sheet wb ws sheetName =
     (if sheetName \<in> set (SheetNames wb) then Inl (WorksheetExists sheetName)
      else Inr (wb\<lparr>SheetNames := SheetNames wb @ [sheetName],
                   Sheets := (Sheets wb)(sheetName \<mapsto> ws)\<rparr>))"

text \<open>An input file is the pair of its name and its content.\<close>

type_synonym CsvFileInput = "string \<times> string"

text \<open>\<^verbatim>\<open>parseCSV(content).map(row => trimAll(row))\<close>\<close>

definition fileData :: "CsvFileInput \<Rightarrow> csvRecord list" where
  "fileData file = map trimAll (parseCSV (snd file))"

text \<open>
  One turn of the loop of \<^verbatim>\<open>generateGSTR1Excel\<close>. An exception of the library ends the
  loop: it is the \<open>Inl\<close> result.
\<close>

definition processFile :: "workbook \<Rightarrow> CsvFileInput \<Rightarrow> error + workbook" where
  "processFile workbook file =
     (case getSheetName (fst file) of
        None \<Rightarrow> Inr workbook
      | Some sheetName \<Rightarrow>
          if fileData file = [] then Inr workbook
          else
            (case Sheets workbook sheetName of
               None \<Rightarrow>
                 book_append_sheet
                   (workbook\<lparr>Sheets := (Sheets workbook)(sheetName \<mapsto> json_to_sheet (fileData file))\<rparr>)
                   (json_to_sheet (fileData file)) sheetName
             | Some sheet \<Rightarrow>
                 Inr (workbook\<lparr>Sheets := (Sheets workbook)(sheetName \<mapsto>
                        appendDataToSheet sheet (fileData file) (columnMappings sheetName))\<rparr>)))"

fun processFiles :: "workbook \<Rightarrow> CsvFileInput list \<Rightarrow> error + workbook" where
  "processFiles workbook [] = Inr workbook"
| "processFiles workbook (file # rest) =
     (case processFile workbook file of
        Inl e \<Rightarrow> Inl e
      | Inr workbook' \<Rightarrow> processFiles workbook' rest)"




section \<open>Readings of the specification and observations\<close>

text \<open>
  The place-of-supply cleaning as the specification words it: the trimmed value loses a
  leading run of digits, optional white space, a dash and optional white space, and the
  rest is trimmed. It is compared with \<open>cleanPlaceOfSupply\<close> below.
\<close>

definition specCleanPlaceOfSupply :: "string \<Rightarrow> string" where
  "specCleanPlaceOfSupply v =
     (let t = trim v;
          ds = takeWhile isDigit t;
          r = dropWhile isSpace (dropWhile isDigit t)
      in if ds \<noteq> [] \<and> r \<noteq> [] \<and> hd r = CHR ''-'' then trim (dropWhile isSpace (tl r)) else t)"


text \<open>
  The row that receives record \<open>rowIndex\<close> of a file of the category when the loop reaches
  the file with this workbook: \<open>rowIndex + 1\<close> in a fresh sheet, \<open>startRow + rowIndex\<close> in
  an existing one.
\<close>

definition firstDataRow :: "workbook \<Rightarrow> string \<Rightarrow> nat" where
  "firstDataRow wb sheetName =
     (case Sheets wb sheetName of None \<Rightarrow> 1 | Some sheet \<Rightarrow> startRow sheet)"

definition recordRow :: "workbook \<Rightarrow> string \<Rightarrow> nat \<Rightarrow> nat" where
  "recordRow wb sheetName rowIndex = firstDataRow wb sheetName + rowIndex"

text \<open>What a run of the loop over some files leaves: a cell of a sheet, and the next row.\<close>

definition cellAfter ::
  "workbook \<Rightarrow> CsvFileInput list \<Rightarrow> string \<Rightarrow> nat \<times> nat \<Rightarrow> cell option" where
  "cellAfter wb files sheetName addr =
     (case processFiles wb files of
        Inl e \<Rightarrow> None
      | Inr wb' \<Rightarrow> (case Sheets wb' sheetName of None \<Rightarrow> None | Some sheet \<Rightarrow> cells sheet addr))"


text \<open>The header row that \<^verbatim>\<open>json_to_sheet\<close> collects from the records.\<close>

definition jsonHeader :: "csvRecord list \<Rightarrow> string list" where
  "jsonHeader js = fst (jsonRows 0 js ([], Map.empty))"

section \<open>Example inputs\<close>


text \<open>
  A template sheet with a header row (one header blank), one row of data and two empty
  rows inside its used range; a sheet with a header row only; a workbook holding the
  first under the name \<open>b2b\<close>; input files, and the workbooks that the first of them
  leaves when it is processed on the empty workbook and on the template.
\<close>

definition exTemplateSheet :: sheet where
  "exTemplateSheet =
     \<lparr>cells = [(0, 0) \<mapsto> TextCell ''Invoice No'', (0, 1) \<mapsto> TextCell '' '',
               (0, 2) \<mapsto> TextCell ''Place Of Supply'', (0, 3) \<mapsto> TextCell ''Taxable Value'',
               (1, 0) \<mapsto> TextCell ''INV0'', (1, 3) \<mapsto> NumCell (Finite 5 0),
               (2, 0) \<mapsto> TextCell []],
      ref = Some \<lparr>s_r = 0, s_c = 0, e_r = 3, e_c = 3\<rparr>\<rparr>"


definition exTemplate :: workbook where
  "exTemplate = \<lparr>SheetNames = [''b2b''], Sheets = [''b2b'' \<mapsto> exTemplateSheet]\<rparr>"

definition exFileA :: CsvFileInput where
  "exFileA = (''sales_b2b.csv'',
     ''Invoice Number,Place Of Supply,Taxable Value\<newline> INV1 ,07-Delhi,1000\<newline>INV2,Goa,x'')"

definition exFileB :: CsvFileInput where
  "exFileB = (''sales_b2b_2.csv'', ''Invoice Number,Taxable Value\<newline>INV3,2500'')"

definition exFileC :: CsvFileInput where
  "exFileC = (''b2b_3.csv'', ''Taxable Value\<newline>\"1,234.50\"'')"

definition exFresh :: workbook where
  "exFresh = \<lparr>SheetNames = [''b2b''], Sheets = [''b2b'' \<mapsto> json_to_sheet (fileData exFileA)]\<rparr>"

definition exAppended :: workbook where
  "exAppended =
     \<lparr>SheetNames = [''b2b''],
      Sheets = [''b2b'' \<mapsto>
        appendDataToSheet exTemplateSheet (fileData exFileA) (columnMappings ''b2b'')]\<rparr>"



section \<open>Properties of strings\<close>

lemma str_includes_iff: "str_includes s pat \<longleftrightarrow> (\<exists>a b. s = a @ pat @ b)"
proof (induction s)
  case Nil
  then show ?case by auto
next
  case (Cons c cs)
  show ?case
  proof
    assume "str_includes (c # cs) pat"
    then consider "prefix pat (c # cs)" | "str_includes cs pat" by auto
    then show "\<exists>a b. c # cs = a @ pat @ b"
    proof cases
      case 1
      then obtain b where "c # cs = pat @ b" by (auto simp: prefix_def)
      then have "c # cs = [] @ pat @ b" by simp
      then show ?thesis by blast
    next
      case 2
      then obtain a b where "cs = a @ pat @ b" using Cons.IH by auto
      then have "c # cs = (c # a) @ pat @ b" by simp
      then show ?thesis by blast
    qed
  next
    assume "\<exists>a b. c # cs = a @ pat @ b"
    then obtain a b where ab: "c # cs = a @ pat @ b" by auto
    show "str_includes (c # cs) pat"
    proof (cases a)
      case Nil
      then have "prefix pat (c # cs)" using ab by (simp add: prefix_def)
      then show ?thesis by simp
    next
      case (Cons x a')
      then have "cs = a' @ pat @ b" using ab by simp
      then have "str_includes cs pat" using Cons.IH by blast
      then show ?thesis by simp
    qed
  qed
qed

lemma trimStart_id: "s = [] \<or> \<not> isSpace (hd s) \<Longrightarrow> trimStart s = s"
  by (simp add: trimStart_def dropWhile_eq_self_iff)

lemma trimEnd_id: "s = [] \<or> \<not> isSpace (last s) \<Longrightarrow> trimEnd s = s"
proof -
  assume "s = [] \<or> \<not> isSpace (last s)"
  then have "rev s = [] \<or> \<not> isSpace (hd (rev s))" by (auto simp: hd_rev)
  then have "dropWhile isSpace (rev s) = rev s" by (simp only: dropWhile_eq_self_iff)
  then show ?thesis by (simp add: trimEnd_def)
qed

lemma trim_id: "s = [] \<or> (\<not> isSpace (hd s) \<and> \<not> isSpace (last s)) \<Longrightarrow> trim s = s"
  using trimStart_id [of s] trimEnd_id [of s] by (auto simp: trim_def)

lemma trimEnd_last: "trimEnd s \<noteq> [] \<Longrightarrow> \<not> isSpace (last (trimEnd s))"
proof -
  assume "trimEnd s \<noteq> []"
  then have ne: "dropWhile isSpace (rev s) \<noteq> []" by (simp add: trimEnd_def)
  then have "\<not> isSpace (hd (dropWhile isSpace (rev s)))" by (rule hd_dropWhile)
  then show ?thesis using ne by (simp add: trimEnd_def last_rev)
qed

lemma trimEnd_prefix: "s = trimEnd s @ rev (takeWhile isSpace (rev s))"
proof -
  have "trimEnd s @ rev (takeWhile isSpace (rev s)) =
          rev (takeWhile isSpace (rev s) @ dropWhile isSpace (rev s))"
    by (simp only: trimEnd_def rev_append)
  also have "\<dots> = rev (rev s)" by (simp only: takeWhile_dropWhile_id)
  finally show ?thesis by simp
qed

lemma trimEnd_hd: "trimEnd s \<noteq> [] \<Longrightarrow> hd (trimEnd s) = hd s"
  using trimEnd_prefix [of s] by (metis hd_append2)

lemma trim_last: "trim s \<noteq> [] \<Longrightarrow> \<not> isSpace (last (trim s))"
  unfolding trim_def by (rule trimEnd_last)

lemma trim_hd: "trim s \<noteq> [] \<Longrightarrow> \<not> isSpace (hd (trim s))"
proof -
  assume ne: "trim s \<noteq> []"
  then have h: "hd (trim s) = hd (trimStart s)" unfolding trim_def by (rule trimEnd_hd)
  have "trimStart s \<noteq> []" using ne by (auto simp: trim_def trimEnd_def)
  then have "\<not> isSpace (hd (trimStart s))" unfolding trimStart_def by (rule hd_dropWhile)
  then show ?thesis using h by simp
qed

lemma trim_trim: "trim (trim s) = trim s"
  using trim_hd [of s] trim_last [of s] by (intro trim_id) auto

section \<open>The classifier and unclassified files\<close>






section \<open>The type of a written value\<close>

lemma normalise_Finite: "\<exists>m' k'. normalise m k = Finite m' k'"
  by (induction m k rule: normalise.induct) auto

lemma scaled_Finite: "\<exists>m' k'. scaled m k e = Finite m' k'"
  using normalise_Finite by (simp add: scaled_def)

lemma strictNumeric_chars:
  assumes "strictNumeric v"
  shows "v \<noteq> [] \<and> (\<forall>c\<in>set v. c = CHR ''-'' \<or> c = CHR ''.'' \<or> isDigit c)"
proof -
  define u where "u = (if v \<noteq> [] \<and> hd v = CHR ''-'' then tl v else v)"
  define r where "r = dropWhile isDigit u"
  define f where "f = (if r \<noteq> [] \<and> hd r = CHR ''.'' then tl r else r)"
  have s: "takeWhile isDigit u \<noteq> []" "list_all isDigit f"
    using assms unfolding strictNumeric_def Let_def u_def r_def f_def by blast+
  have "u \<noteq> []" using s(1) by auto
  then have v: "v \<noteq> []" by (auto simp: u_def split: if_splits)
  have "set r \<subseteq> {CHR ''.''} \<union> set f"
    by (cases r) (auto simp: f_def split: if_splits)
  moreover have "set u = set (takeWhile isDigit u) \<union> set r"
    unfolding r_def by (metis set_append takeWhile_dropWhile_id)
  moreover have "set v \<subseteq> {CHR ''-''} \<union> set u"
    using v by (cases v) (auto simp: u_def split: if_splits)
  moreover have "\<forall>c\<in>set (takeWhile isDigit u). isDigit c" by (meson set_takeWhileD)
  moreover have "\<forall>c\<in>set f. isDigit c" using s(2) by (simp add: list_all_iff)
  ultimately show ?thesis using v by blast
qed

lemma strictNumeric_no_comma: "strictNumeric v \<Longrightarrow> stripCommas v = v"
proof -
  assume "strictNumeric v"
  then have "\<forall>c\<in>set v. c = CHR ''-'' \<or> c = CHR ''.'' \<or> isDigit c"
    using strictNumeric_chars by blast
  moreover have "\<not> isDigit CHR '',''" by (simp add: isDigit_def)
  ultimately have "\<forall>c\<in>set v. c \<noteq> CHR '',''" by auto
  then show ?thesis by (simp add: stripCommas_def)
qed

lemma strictNumeric_parseFloat:
  assumes "strictNumeric v"
  shows "\<exists>m k. parseFloat v = Finite m k"
proof -
  define u where "u = (if v \<noteq> [] \<and> hd v = CHR ''-'' then tl v else v)"
  have ds: "takeWhile isDigit u \<noteq> []"
    using assms unfolding strictNumeric_def Let_def u_def by blast
  then obtain d u' where u: "u = d # u'" "isDigit d" by (cases u) (auto split: if_splits)
  have v: "v \<noteq> []" using strictNumeric_chars [OF assms] by simp
  have nd: "\<not> isDigit CHR ''+''" "\<not> isDigit CHR ''-''" "\<not> isDigit CHR ''I''"
    by (simp_all add: isDigit_def)
  have dn: "\<not> isSpace d" "\<not> isSpace CHR ''-''"
    using u(2) by (auto simp: isDigit_def isSpace_def)
  have hv: "hd v = CHR ''-'' \<or> hd v = d"
    using u(1) v by (auto simp: u_def split: if_splits)
  then have "\<not> isSpace (hd v)" using dn by auto
  then have t: "trimStart v = v" using v by (simp add: trimStart_def dropWhile_eq_self_iff)
  have plus: "hd v \<noteq> CHR ''+''" using hv u(2) nd by auto
  have u2: "(if v \<noteq> [] \<and> (hd v = CHR ''-'' \<or> hd v = CHR ''+'') then tl v else v) = u"
    using plus by (simp add: u_def)
  have inf: "\<not> prefix ''Infinity'' u" using u nd by auto
  show ?thesis
    unfolding parseFloat_def Let_def t u2
    using inf ds scaled_Finite by simp
qed

text \<open>
  The type that \<^verbatim>\<open>appendDataToSheet\<close> gives a non-empty value: a number exactly when the
  value itself, commas included, matches the pattern; the trimmed text otherwise.
\<close>

lemma typedCell_cases:
  "typedCell v = (if strictNumeric v then NumCell (parseFloat v) else TextCell (trim v))"
proof (cases "strictNumeric v")
  case True
  then obtain m k where "parseFloat v = Finite m k" using strictNumeric_parseFloat by blast
  then show ?thesis using True by (simp add: typedCell_def strictNumeric_no_comma)
next
  case False
  then show ?thesis by (simp add: typedCell_def)
qed

section \<open>Place-of-supply cleaning\<close>

lemma not_digit_dash: "\<not> isDigit CHR ''-''"
  by (simp add: isDigit_def)

lemma stripNumericPrefix_match:
  assumes "ds \<noteq> []" "list_all isDigit ds" "list_all isSpace ws" "rest = [] \<or> \<not> isSpace (hd rest)"
  shows "stripNumericPrefix (ds @ ''-'' @ ws @ rest) = rest"
proof -
  have d: "\<And>x. x \<in> set ds \<Longrightarrow> isDigit x" using assms(2) by (simp add: list_all_iff)
  have w: "\<And>x. x \<in> set ws \<Longrightarrow> isSpace x" using assms(3) by (simp add: list_all_iff)
  have t: "takeWhile isDigit (ds @ ''-'' @ ws @ rest) = ds"
    using d by (simp add: takeWhile_append2 not_digit_dash)
  have r: "dropWhile isDigit (ds @ ''-'' @ ws @ rest) = ''-'' @ ws @ rest"
    using d by (simp add: dropWhile_append2 not_digit_dash)
  have "dropWhile isSpace (ws @ rest) = dropWhile isSpace rest"
    using w by (simp add: dropWhile_append2)
  also have "\<dots> = rest" using assms(4) by (simp add: dropWhile_eq_self_iff)
  finally have "dropWhile isSpace (tl (''-'' @ ws @ rest)) = rest" by simp
  then show ?thesis unfolding stripNumericPrefix_def Let_def t r using assms(1) by simp
qed

lemma stripNumericPrefix_no_match:
  assumes "\<forall>ds r. ds \<noteq> [] \<and> list_all isDigit ds \<longrightarrow> t \<noteq> ds @ ''-'' @ r"
  shows "stripNumericPrefix t = t"
proof (rule ccontr)
  assume "stripNumericPrefix t \<noteq> t"
  then have c: "takeWhile isDigit t \<noteq> []" "dropWhile isDigit t \<noteq> []" "hd (dropWhile isDigit t) = CHR ''-''"
    by (auto simp: stripNumericPrefix_def Let_def split: if_splits)
  then have "dropWhile isDigit t = ''-'' @ tl (dropWhile isDigit t)"
    by (metis append_Cons append_Nil list.collapse)
  then have "t = takeWhile isDigit t @ ''-'' @ tl (dropWhile isDigit t)"
    by (metis takeWhile_dropWhile_id)
  moreover have "list_all isDigit (takeWhile isDigit t)"
    by (simp add: list_all_iff) (meson set_takeWhileD)
  ultimately show False using assms c(1) by blast
qed

lemma cleanPlaceOfSupply_match:
  assumes "ds \<noteq> []" "list_all isDigit ds" "list_all isSpace ws" "rest = [] \<or> \<not> isSpace (hd rest)"
    and "trim v = ds @ ''-'' @ ws @ rest"
  shows "cleanPlaceOfSupply v = rest"
proof -
  have s: "stripNumericPrefix (trim v) = rest"
    unfolding assms(5) using assms(1-4) by (rule stripNumericPrefix_match)
  have "rest \<noteq> [] \<Longrightarrow> \<not> isSpace (last rest)"
  proof -
    assume ne: "rest \<noteq> []"
    then have "last (trim v) = last rest" unfolding assms(5) by simp
    moreover have "trim v \<noteq> []" unfolding assms(5) by simp
    ultimately show ?thesis using trim_last [of v] by simp
  qed
  then have "trim rest = rest" using assms(4) by (intro trim_id) auto
  then show ?thesis by (simp add: cleanPlaceOfSupply_def s)
qed

lemma cleanPlaceOfSupply_no_match:
  assumes "\<forall>ds r. ds \<noteq> [] \<and> list_all isDigit ds \<longrightarrow> trim v \<noteq> ds @ ''-'' @ r"
  shows "cleanPlaceOfSupply v = trim v"
  using stripNumericPrefix_no_match [OF assms] by (simp add: cleanPlaceOfSupply_def trim_trim)

lemma cleanPlaceOfSupply_Delhi:
  "cleanPlaceOfSupply ''07-Delhi'' = ''Delhi'' \<and> cleanPlaceOfSupply ''Delhi'' = ''Delhi''"
  by code_simp

text \<open>
  C2, as amended. For a template column whose lower-cased name contains
  \<open>place of supply\<close>, a non-empty value is cleaned before it is typed. If the trimmed
  value is one or more digits, a dash right after them, white space and a rest, the
  cleaned value is the rest; if the trimmed value does not start with digits and a
  dash, the cleaned value is the trimmed value. So \<open>07-Delhi\<close> becomes \<open>Delhi\<close> and
  \<open>Delhi\<close> stays \<open>Delhi\<close>.
\<close>

theorem cleanPlaceOfSupply_strips_code:
  "(ds \<noteq> [] \<and> list_all isDigit ds \<and> list_all isSpace ws \<and> (rest = [] \<or> \<not> isSpace (hd rest))
      \<and> trim v = ds @ ''-'' @ ws @ rest \<longrightarrow> cleanPlaceOfSupply v = rest)
   \<and> ((\<forall>ds r. ds \<noteq> [] \<and> list_all isDigit ds \<longrightarrow> trim v \<noteq> ds @ ''-'' @ r)
        \<longrightarrow> cleanPlaceOfSupply v = trim v)
   \<and> (isPlaceOfSupply h \<and> v \<noteq> [] \<longrightarrow> writeCell h v = typedCell (cleanPlaceOfSupply v))
   \<and> cleanPlaceOfSupply ''07-Delhi'' = ''Delhi''
   \<and> cleanPlaceOfSupply ''Delhi'' = ''Delhi''"
  using cleanPlaceOfSupply_match [of ds ws rest v] cleanPlaceOfSupply_no_match [of v]
    cleanPlaceOfSupply_Delhi
  by (simp add: writeCell_def)

text \<open>
  White space between the digits and the dash is not part of the pattern
  \<^verbatim>\<open>/^\d+-\s*/\<close>: the value \<open>07 - Delhi\<close> is kept whole, where the wording of the
  specification strips it to \<open>Delhi\<close>.
\<close>

theorem cleanPlaceOfSupply_spaced_dash:
  "specCleanPlaceOfSupply ''07 - Delhi'' = ''Delhi'' \<and> cleanPlaceOfSupply ''07 - Delhi'' = ''07 - Delhi''"
  by code_simp

theorem cleanPlaceOfSupply_strips_code_witness:
  "cleanPlaceOfSupply '' 27-  Maharashtra '' = ''Maharashtra''
   \<and> cleanPlaceOfSupply '' Goa '' = ''Goa''
   \<and> writeCell ''Place Of Supply'' ''27-Maharashtra'' = TextCell ''Maharashtra''"
proof -
  have t1: "trim '' 27-  Maharashtra '' = ''27'' @ ''-'' @ ''  '' @ ''Maharashtra''" by code_simp
  have p1: "''27'' \<noteq> [] \<and> list_all isDigit ''27'' \<and> list_all isSpace ''  ''
     \<and> (''Maharashtra'' = [] \<or> \<not> isSpace (hd ''Maharashtra''))" by code_simp
  have t2: "trim '' Goa '' = ''Goa''" by code_simp
  have p2: "\<forall>ds r. ds \<noteq> [] \<and> list_all isDigit ds \<longrightarrow> trim '' Goa '' \<noteq> ds @ ''-'' @ r"
  proof (intro allI impI)
    fix ds r :: string
    assume a: "ds \<noteq> [] \<and> list_all isDigit ds"
    then obtain d ds' where "ds = d # ds'" by (cases ds) auto
    moreover have "isDigit d" using a calculation by simp
    moreover have "\<not> isDigit CHR ''G''" by (simp add: isDigit_def)
    ultimately show "trim '' Goa '' \<noteq> ds @ ''-'' @ r" unfolding t2 by auto
  qed
  have p3: "isPlaceOfSupply ''Place Of Supply'' \<and> ''27-Maharashtra'' \<noteq> []" by code_simp
  have c3: "cleanPlaceOfSupply ''27-Maharashtra'' = ''Maharashtra''" by code_simp
  have t3: "typedCell ''Maharashtra'' = TextCell ''Maharashtra''" by code_simp
  from cleanPlaceOfSupply_strips_code [of "''27''" "''  ''" "''Maharashtra''" "'' 27-  Maharashtra ''"
      "''Place Of Supply''"] t1 p1
  have a: "cleanPlaceOfSupply '' 27-  Maharashtra '' = ''Maharashtra''" by blast
  from cleanPlaceOfSupply_strips_code [of "''27''" "''  ''" "''Maharashtra''" "'' Goa ''"
      "''Place Of Supply''"] p2 t2
  have b: "cleanPlaceOfSupply '' Goa '' = ''Goa''" by simp
  from cleanPlaceOfSupply_strips_code [of "''27''" "''  ''" "''Maharashtra''" "''27-Maharashtra''"
      "''Place Of Supply''"] p3 c3 t3
  have c: "writeCell ''Place Of Supply'' ''27-Maharashtra'' = TextCell ''Maharashtra''" by simp
  from a b c show ?thesis by simp
qed

section \<open>Properties of the record parser\<close>


lemma fillRow_distinct: "distinct (map fst row) \<Longrightarrow> distinct (map fst (fillRow hs i vals row))"
  by (induction hs arbitrary: i row) (auto simp: distinct_update)











section \<open>Properties of the sheet merger\<close>

lemma writeCols_apply:
  "writeCols m row r hs c cs (r', c') =
     (if r' = r \<and> c \<le> c' \<and> c' < c + length hs \<and> hs ! (c' - c) \<noteq> []
      then Some (writeCell (hs ! (c' - c)) (resolveValue m row (hs ! (c' - c))))
      else cs (r', c'))"
proof (induction hs arbitrary: c cs)
  case Nil
  then show ?case by auto
next
  case (Cons h hs)
  have nth: "c < c' \<Longrightarrow> (h # hs) ! (c' - c) = hs ! (c' - Suc c)"
    by (simp add: nth_Cons')
  show ?case
    unfolding writeCols.simps Cons.IH
    by (cases "c' = c") (use nth in \<open>auto simp: less_Suc_eq_le\<close>)
qed

lemma writeRows_apply:
  "writeRows m hs start data i cs (r, c) =
     (if start + i \<le> r \<and> r < start + i + length data \<and> c < length hs \<and> hs ! c \<noteq> []
      then Some (writeCell (hs ! c) (resolveValue m (data ! (r - (start + i))) (hs ! c)))
      else cs (r, c))"
proof (induction data arbitrary: i cs)
  case Nil
  then show ?case by auto
next
  case (Cons row rest)
  have nth: "start + i < r \<Longrightarrow> (row # rest) ! (r - (start + i)) = rest ! (r - (start + Suc i))"
    by (simp add: nth_Cons')
  show ?case
    unfolding writeRows.simps Cons.IH writeCols_apply
    by (cases "r = start + i") (use nth in \<open>auto simp: less_Suc_eq_le\<close>)
qed










lemma append_cells:
  "data \<noteq> [] \<Longrightarrow>
   cells (appendDataToSheet sh data m) (r, c) =
     (if startRow sh \<le> r \<and> r < startRow sh + length data
          \<and> c < length (templateHeaders sh) \<and> templateHeaders sh ! c \<noteq> []
      then Some (writeCell (templateHeaders sh ! c)
                   (resolveValue m (data ! (r - startRow sh)) (templateHeaders sh ! c)))
      else cells sh (r, c))"
  by (simp add: appendDataToSheet_def writeRows_apply)





section \<open>The fresh sheet\<close>

lemma indexOf_None: "indexOf xs k = None \<longleftrightarrow> k \<notin> set xs"
  by (induction xs) auto

lemma indexOf_Some: "indexOf xs k = Some i \<Longrightarrow> i < length xs \<and> xs ! i = k"
  by (induction xs arbitrary: i) (auto split: if_splits)

text \<open>One key of a record: the header after it, and the column it is written to.\<close>

lemma jsonKeys_Cons:
  "\<exists>C hdr1. jsonKeys R ((k, v) # kvs) (hdr, cs)
              = jsonKeys R kvs (hdr1, cs((R + 1, C) \<mapsto> TextCell v))
     \<and> C < length hdr1 \<and> hdr1 ! C = k
     \<and> (hdr1 = hdr \<or> (k \<notin> set hdr \<and> hdr1 = hdr @ [k]))"
proof (cases "indexOf hdr k")
  case None
  then have "k \<notin> set hdr" by (simp add: indexOf_None)
  then show ?thesis using None by (intro exI [of _ "length hdr"] exI [of _ "hdr @ [k]"]) simp
next
  case (Some C)
  then show ?thesis using indexOf_Some [OF Some] by (intro exI [of _ C] exI [of _ hdr]) simp
qed

lemma jsonKeys_header:
  "distinct hdr \<Longrightarrow>
   distinct (fst (jsonKeys R kvs (hdr, cs)))
   \<and> (\<exists>e. fst (jsonKeys R kvs (hdr, cs)) = hdr @ e)
   \<and> set (fst (jsonKeys R kvs (hdr, cs))) = set hdr \<union> fst ` set kvs"
proof (induction kvs arbitrary: hdr cs)
  case Nil
  then show ?case by simp
next
  case (Cons kv kvs)
  obtain k v where kv: "kv = (k, v)" by (cases kv)
  from jsonKeys_Cons [of R k v kvs hdr cs]
  obtain C hdr1 where s: "jsonKeys R ((k, v) # kvs) (hdr, cs)
              = jsonKeys R kvs (hdr1, cs((R + 1, C) \<mapsto> TextCell v))"
    and h: "hdr1 = hdr \<or> (k \<notin> set hdr \<and> hdr1 = hdr @ [k])" and c: "C < length hdr1" "hdr1 ! C = k"
    by blast
  have d1: "distinct hdr1" using h Cons.prems by auto
  have k1: "k \<in> set hdr1" using c by (metis nth_mem)
  from Cons.IH [OF d1, of "cs((R + 1, C) \<mapsto> TextCell v)"]
  have ih: "distinct (fst (jsonKeys R (kv # kvs) (hdr, cs)))"
    "\<exists>e. fst (jsonKeys R (kv # kvs) (hdr, cs)) = hdr1 @ e"
    "set (fst (jsonKeys R (kv # kvs) (hdr, cs))) = set hdr1 \<union> fst ` set kvs"
    unfolding kv s by blast+
  from ih(2) h have "\<exists>e. fst (jsonKeys R (kv # kvs) (hdr, cs)) = hdr @ e" by auto
  moreover have "set hdr1 \<union> fst ` set kvs = set hdr \<union> fst ` set (kv # kvs)"
    using h k1 kv by auto
  ultimately show ?case using ih(1,3) by simp
qed

lemma jsonKeys_cells:
  "distinct hdr \<Longrightarrow>
   snd (jsonKeys R kvs (hdr, cs)) (r, c) =
     (if r = R + 1 \<and> c < length (fst (jsonKeys R kvs (hdr, cs)))
          \<and> fst (jsonKeys R kvs (hdr, cs)) ! c \<in> fst ` set kvs
      then Some (TextCell (the (map_of (rev kvs) (fst (jsonKeys R kvs (hdr, cs)) ! c))))
      else cs (r, c))"
proof (induction kvs arbitrary: hdr cs)
  case Nil
  then show ?case by simp
next
  case (Cons kv kvs)
  obtain k v where kv: "kv = (k, v)" by (cases kv)
  from jsonKeys_Cons [of R k v kvs hdr cs]
  obtain C hdr1 where s: "jsonKeys R ((k, v) # kvs) (hdr, cs)
              = jsonKeys R kvs (hdr1, cs((R + 1, C) \<mapsto> TextCell v))"
    and h: "hdr1 = hdr \<or> (k \<notin> set hdr \<and> hdr1 = hdr @ [k])" and c: "C < length hdr1" "hdr1 ! C = k"
    by blast
  have d1: "distinct hdr1" using h Cons.prems by auto
  define H where "H = fst (jsonKeys R kvs (hdr1, cs((R + 1, C) \<mapsto> TextCell v)))"
  from jsonKeys_header [OF d1, of R kvs "cs((R + 1, C) \<mapsto> TextCell v)"]
  obtain e where H: "distinct H" "H = hdr1 @ e" unfolding H_def by blast
  have HC: "C < length H" "H ! C = k" using c H(2) by (simp_all add: nth_append)
  have col: "c < length H \<and> H ! c = k \<longleftrightarrow> c = C"
    using HC H(1) by (auto simp: nth_eq_iff_index_eq)
  have look: "map_of (rev (kv # kvs)) x =
      (case map_of (rev kvs) x of None \<Rightarrow> (if x = k then Some v else None) | Some y \<Rightarrow> Some y)" for x
    by (simp add: kv map_add_def split: option.splits)
  have dom: "x \<in> fst ` set kvs \<longleftrightarrow> map_of (rev kvs) x \<noteq> None" for x
    by (metis map_of_eq_None_iff set_rev)
  have ih: "snd (jsonKeys R (kv # kvs) (hdr, cs)) (r, c) =
     (if r = R + 1 \<and> c < length H \<and> H ! c \<in> fst ` set kvs
      then Some (TextCell (the (map_of (rev kvs) (H ! c))))
      else (cs((R + 1, C) \<mapsto> TextCell v)) (r, c))"
    unfolding kv s H_def by (rule Cons.IH [OF d1])
  have fstH: "fst (jsonKeys R (kv # kvs) (hdr, cs)) = H" unfolding kv s H_def ..
  have fk: "fst kv = k" using kv by simp
  show ?case
    unfolding fstH ih look
    using col dom fk by (auto split: option.splits)
qed

lemma jsonRows_header:
  "distinct hdr \<Longrightarrow>
   distinct (fst (jsonRows R js (hdr, cs))) \<and> (\<exists>e. fst (jsonRows R js (hdr, cs)) = hdr @ e)
   \<and> (\<forall>JS\<in>set js. fst ` set JS \<subseteq> set (fst (jsonRows R js (hdr, cs))))"
proof (induction js arbitrary: R hdr cs)
  case Nil
  then show ?case by simp
next
  case (Cons JS rest)
  obtain hdr1 cs1 where s: "jsonKeys R JS (hdr, cs) = (hdr1, cs1)" by (cases "jsonKeys R JS (hdr, cs)")
  from jsonKeys_header [OF Cons.prems, of R JS cs]
  obtain e where h1: "distinct hdr1" "hdr1 = hdr @ e" "set hdr1 = set hdr \<union> fst ` set JS"
    unfolding s by auto
  from Cons.IH [OF h1(1), of "Suc R" cs1]
  obtain e' where ih: "distinct (fst (jsonRows (Suc R) rest (hdr1, cs1)))"
    "fst (jsonRows (Suc R) rest (hdr1, cs1)) = hdr1 @ e'"
    "\<forall>JS\<in>set rest. fst ` set JS \<subseteq> set (fst (jsonRows (Suc R) rest (hdr1, cs1)))"
    by blast
  have "fst ` set JS \<subseteq> set (fst (jsonRows (Suc R) rest (hdr1, cs1)))"
    using ih(2) h1(3) by auto
  then show ?case using ih h1(2) by (simp add: s)
qed

lemma jsonRows_cells:
  "distinct hdr \<Longrightarrow>
   snd (jsonRows R js (hdr, cs)) (r, c) =
     (if R + 1 \<le> r \<and> r < R + 1 + length js \<and> c < length (fst (jsonRows R js (hdr, cs)))
          \<and> fst (jsonRows R js (hdr, cs)) ! c \<in> fst ` set (js ! (r - (R + 1)))
      then Some (TextCell (the (map_of (rev (js ! (r - (R + 1))))
                                  (fst (jsonRows R js (hdr, cs)) ! c))))
      else cs (r, c))"
proof (induction js arbitrary: R hdr cs)
  case Nil
  then show ?case by auto
next
  case (Cons JS rest)
  obtain hdr1 cs1 where s: "jsonKeys R JS (hdr, cs) = (hdr1, cs1)" by (cases "jsonKeys R JS (hdr, cs)")
  from jsonKeys_header [OF Cons.prems, of R JS cs]
  have h1: "distinct hdr1" "set hdr1 = set hdr \<union> fst ` set JS" unfolding s by auto
  define H where "H = fst (jsonRows (Suc R) rest (hdr1, cs1))"
  from jsonRows_header [OF h1(1), of "Suc R" rest cs1]
  obtain e where H: "distinct H" "H = hdr1 @ e" unfolding H_def by blast
  have fstH: "fst (jsonRows R (JS # rest) (hdr, cs)) = H" by (simp add: s H_def)
  have ih: "snd (jsonRows R (JS # rest) (hdr, cs)) (r, c) =
     (if Suc R + 1 \<le> r \<and> r < Suc R + 1 + length rest \<and> c < length H
          \<and> H ! c \<in> fst ` set (rest ! (r - (Suc R + 1)))
      then Some (TextCell (the (map_of (rev (rest ! (r - (Suc R + 1)))) (H ! c))))
      else cs1 (r, c))"
    using Cons.IH [OF h1(1), of "Suc R" cs1] by (simp add: s H_def)
  have c1: "cs1 (r, c) =
     (if r = R + 1 \<and> c < length hdr1 \<and> hdr1 ! c \<in> fst ` set JS
      then Some (TextCell (the (map_of (rev JS) (hdr1 ! c))))
      else cs (r, c))"
    using jsonKeys_cells [OF Cons.prems, of R JS cs r c] by (simp add: s)
  have same: "c < length H \<and> H ! c \<in> fst ` set JS \<longleftrightarrow> c < length hdr1 \<and> hdr1 ! c \<in> fst ` set JS"
  proof
    assume a: "c < length H \<and> H ! c \<in> fst ` set JS"
    then have "H ! c \<in> set hdr1" using h1(2) by auto
    then obtain c' where c': "c' < length hdr1" "hdr1 ! c' = H ! c" by (auto simp: in_set_conv_nth)
    then have "H ! c' = H ! c" "c' < length H" using H(2) by (simp_all add: nth_append)
    then have "c' = c" using H(1) a by (simp add: nth_eq_iff_index_eq)
    then show "c < length hdr1 \<and> hdr1 ! c \<in> fst ` set JS" using c' a by simp
  next
    assume "c < length hdr1 \<and> hdr1 ! c \<in> fst ` set JS"
    then show "c < length H \<and> H ! c \<in> fst ` set JS" using H(2) by (simp add: nth_append)
  qed
  have pre: "c < length hdr1 \<Longrightarrow> H ! c = hdr1 ! c" using H(2) by (simp add: nth_append)
  have nth: "R + 1 < r \<Longrightarrow> (JS # rest) ! (r - (R + 1)) = rest ! (r - (Suc R + 1))"
    by (simp add: nth_Cons')
  show ?case
    unfolding fstH ih c1
    by (cases "r = R + 1") (use same pre nth in \<open>auto simp: less_Suc_eq_le\<close>)
qed

lemma headerCells_apply:
  "headerCells hs C cs (r, c) =
     (if r = 0 \<and> C \<le> c \<and> c < C + length hs then Some (TextCell (hs ! (c - C))) else cs (r, c))"
proof (induction hs arbitrary: C cs)
  case Nil
  then show ?case by auto
next
  case (Cons h hs)
  have nth: "C < c \<Longrightarrow> (h # hs) ! (c - C) = hs ! (c - Suc C)" by (simp add: nth_Cons')
  show ?case
    unfolding headerCells.simps Cons.IH
    by (cases "c = C") (use nth in \<open>auto simp: less_Suc_eq_le\<close>)
qed

lemma json_to_sheet_cells:
  "cells (json_to_sheet js) (r, c) =
     (if c < length (jsonHeader js) then
        (if r = 0 then Some (TextCell (jsonHeader js ! c))
         else if r \<le> length js \<and> jsonHeader js ! c \<in> fst ` set (js ! (r - 1))
           then Some (TextCell (the (map_of (rev (js ! (r - 1))) (jsonHeader js ! c))))
         else None)
      else None)"
  unfolding json_to_sheet_def Let_def jsonHeader_def
  by (simp add: headerCells_apply jsonRows_cells)

lemma json_to_sheet_text: "cells (json_to_sheet js) a = Some x \<Longrightarrow> \<exists>s. x = TextCell s"
  by (cases a) (auto simp: json_to_sheet_cells split: if_splits)

lemma map_of_rev_distinct:
  assumes "distinct (map fst kvs)"
  shows "map_of (rev kvs) = map_of kvs"
proof -
  have "distinct (map fst (rev kvs))" using assms by (simp add: rev_map [symmetric])
  from map_of_inject_set [OF this assms] show ?thesis by simp
qed

lemma json_to_sheet_record:
  assumes "i < length js" "(k, v) \<in> set (js ! i)" "distinct (map fst (js ! i))"
  shows "\<exists>C<length (jsonHeader js). jsonHeader js ! C = k
           \<and> cells (json_to_sheet js) (0, C) = Some (TextCell k)
           \<and> cells (json_to_sheet js) (Suc i, C) = Some (TextCell v)"
proof -
  have "js ! i \<in> set js" using assms(1) by simp
  then have "fst ` set (js ! i) \<subseteq> set (jsonHeader js)"
    using jsonRows_header [of "[]" 0 js Map.empty] by (simp add: jsonHeader_def)
  then have "k \<in> set (jsonHeader js)" using assms(2) by force
  then obtain C where C: "C < length (jsonHeader js)" "jsonHeader js ! C = k"
    by (auto simp: in_set_conv_nth)
  have "map_of (rev (js ! i)) k = Some v"
    using assms(2,3) by (simp add: map_of_rev_distinct)
  moreover have "k \<in> fst ` set (js ! i)" using assms(2) by force
  ultimately have "cells (json_to_sheet js) (Suc i, C) = Some (TextCell v)"
    using C assms(1) by (simp add: json_to_sheet_cells)
  moreover have "cells (json_to_sheet js) (0, C) = Some (TextCell k)"
    using C by (simp add: json_to_sheet_cells)
  ultimately show ?thesis using C by blast
qed

section \<open>The loop over the files\<close>

lemma processFile_cases:
  assumes "processFile wb f = Inr wb'"
  shows "(wb' = wb \<and> (getSheetName (fst f) = None \<or> fileData f = []))
    \<or> (\<exists>n. getSheetName (fst f) = Some n \<and> fileData f \<noteq> [] \<and> Sheets wb n = None
          \<and> n \<notin> set (SheetNames wb)
          \<and> wb' = wb\<lparr>SheetNames := SheetNames wb @ [n],
                      Sheets := (Sheets wb)(n \<mapsto> json_to_sheet (fileData f))\<rparr>)
    \<or> (\<exists>n sh. getSheetName (fst f) = Some n \<and> fileData f \<noteq> [] \<and> Sheets wb n = Some sh
          \<and> wb' = wb\<lparr>Sheets := (Sheets wb)(n \<mapsto>
                        appendDataToSheet sh (fileData f) (columnMappings n))\<rparr>)"
  using assms
  by (auto simp: processFile_def book_append_sheet_def split: option.splits if_splits)








lemma trimAll_keys: "map fst (trimAll row) = map fst row"
  by (induction row) (auto simp: trimAll_def)

lemma fileData_distinct: "row \<in> set (fileData f) \<Longrightarrow> distinct (map fst row)"
proof -
  assume "row \<in> set (fileData f)"
  then obtain r0 where r0: "r0 \<in> set (parseCSV (snd f))" "row = trimAll r0"
    by (auto simp: fileData_def)
  then have "\<exists>hs vals. r0 = fillRow hs 0 vals []"
    by (auto simp: parseCSV_def Let_def split: if_splits)
  then have "distinct (map fst r0)" using fillRow_distinct [of "[]"] by auto
  then show ?thesis using r0(2) by (simp add: trimAll_keys)
qed

text \<open>Where the records of a processed file are written, on both paths.\<close>

lemma processFile_writes_records:
  assumes "processFile wb f = Inr wb'" "getSheetName (fst f) = Some n" "i < length (fileData f)"
  shows "\<exists>sh'. Sheets wb' n = Some sh'
    \<and> (case Sheets wb n of
          None \<Rightarrow>
            (\<forall>k v. (k, v) \<in> set (fileData f ! i) \<longrightarrow>
               (\<exists>C. cells sh' (0, C) = Some (TextCell k)
                  \<and> cells sh' (recordRow wb n i, C) = Some (TextCell v)))
        | Some sh \<Rightarrow>
            (\<forall>j<length (templateHeaders sh). templateHeaders sh ! j \<noteq> [] \<longrightarrow>
               cells sh' (recordRow wb n i, j)
                 = Some (writeCell (templateHeaders sh ! j)
                     (resolveValue (columnMappings n) (fileData f ! i) (templateHeaders sh ! j)))))"
proof -
  have ne: "fileData f \<noteq> []" using assms(3) by auto
  from processFile_cases [OF assms(1)] assms(2) ne
  consider
    (fresh) "Sheets wb n = None"
      "wb' = wb\<lparr>SheetNames := SheetNames wb @ [n],
                 Sheets := (Sheets wb)(n \<mapsto> json_to_sheet (fileData f))\<rparr>"
  | (app) sh where "Sheets wb n = Some sh"
      "wb' = wb\<lparr>Sheets := (Sheets wb)(n \<mapsto>
                   appendDataToSheet sh (fileData f) (columnMappings n))\<rparr>"
    by auto
  then show ?thesis
  proof cases
    case fresh
    have d: "distinct (map fst (fileData f ! i))"
      using assms(3) by (intro fileData_distinct [of _ f]) simp
    have "\<exists>C. cells (json_to_sheet (fileData f)) (0, C) = Some (TextCell k)
             \<and> cells (json_to_sheet (fileData f)) (Suc i, C) = Some (TextCell v)"
      if "(k, v) \<in> set (fileData f ! i)" for k v
      using json_to_sheet_record [OF assms(3) that d] by blast
    then show ?thesis using fresh by (simp add: recordRow_def firstDataRow_def)
  next
    case app
    then show ?thesis using assms(3) ne
      by (simp add: recordRow_def firstDataRow_def append_cells)
  qed
qed




section \<open>Resolution of the template columns\<close>






section \<open>The header row and the append start row\<close>

lemma exFileA_class: "getSheetName (fst exFileA) = Some ''b2b''"
  by code_simp


lemma exFileA_len: "length (fileData exFileA) = 2"
  by code_simp


lemma exFresh_step: "processFile book_new exFileA = Inr exFresh"
proof -
  have "fileData exFileA \<noteq> []" using exFileA_len by auto
  then show ?thesis
    by (simp add: processFile_def exFileA_class book_append_sheet_def book_new_def exFresh_def)
qed

lemma exAppended_step: "processFile exTemplate exFileA = Inr exAppended"
proof -
  have "fileData exFileA \<noteq> []" using exFileA_len by auto
  then show ?thesis
    by (simp add: processFile_def exFileA_class exTemplate_def exAppended_def)
qed



section \<open>The frame of one file\<close>

text \<open>
  C10. Processing one file leaves every sheet other than the one named by the file's
  category as it was, and leaves the list of sheet names as it was, except that the
  category's name is added last when its sheet did not exist before.
\<close>

theorem processFile_frame:
  assumes "processFile wb f = Inr wb'"
  shows "(\<forall>n. getSheetName (fst f) \<noteq> Some n \<longrightarrow> Sheets wb' n = Sheets wb n)
    \<and> (SheetNames wb' = SheetNames wb
        \<or> (\<exists>n. getSheetName (fst f) = Some n \<and> Sheets wb n = None \<and> Sheets wb' n \<noteq> None
              \<and> SheetNames wb' = SheetNames wb @ [n]))
    \<and> (\<forall>n. getSheetName (fst f) = Some n \<and> Sheets wb n \<noteq> None
          \<longrightarrow> SheetNames wb' = SheetNames wb)"
  using processFile_cases [OF assms] by auto

theorem processFile_frame_witness:
  "Sheets exAppended ''hsn'' = Sheets exTemplate ''hsn''
   \<and> SheetNames exAppended = SheetNames exTemplate
   \<and> Sheets exFresh ''hsn'' = Sheets book_new ''hsn''
   \<and> SheetNames exFresh = SheetNames book_new @ [''b2b'']"
proof -
  have t: "Sheets exTemplate ''b2b'' \<noteq> None" by (simp add: exTemplate_def)
  have n: "SheetNames exFresh \<noteq> SheetNames book_new" by (simp add: exFresh_def book_new_def)
  from processFile_frame [OF exAppended_step] exFileA_class t
  have a: "Sheets exAppended ''hsn'' = Sheets exTemplate ''hsn'' \<and> SheetNames exAppended = SheetNames exTemplate"
    by auto
  from processFile_frame [OF exFresh_step] exFileA_class n
  have b: "Sheets exFresh ''hsn'' = Sheets book_new ''hsn'' \<and> SheetNames exFresh = SheetNames book_new @ [''b2b'']"
    by auto
  from a b show ?thesis by simp
qed

section \<open>Order of the rows\<close>




section \<open>The fallback for the template\<close>






section \<open>Where the code departs from the specification\<close>

text \<open>
  C1. The numeric pattern is tested on the value with its commas (\<open>typedCell_cases\<close>), so
  a value with a thousands separator is written as text although its comma-stripped
  form parses as a number and matches the pattern: \<open>1,234.50\<close> under \<open>Taxable Value\<close> is the text
  \<open>1,234.50\<close>, also at the end of a run of the loop.
\<close>

theorem thousands_separator_written_as_text:
  "writeCell ''Taxable Value'' ''1,234.50'' = TextCell ''1,234.50''
   \<and> parseFloat (stripCommas ''1,234.50'') = Finite 12345 1
   \<and> strictNumeric (stripCommas ''1,234.50'')
   \<and> cellAfter book_new [exFileB, exFileC] ''b2b'' (2, 1) = Some (TextCell ''1,234.50'')"
  by code_simp

text \<open>
  C3. The first file of a category without a sheet goes through
  \<^verbatim>\<open>json_to_sheet\<close>, which writes every value as text: \<open>2500\<close> is a text cell in the fresh
  sheet, and the number 2500 when the same file is appended to that sheet.
\<close>

theorem fresh_sheet_cells_are_text:
  "cellAfter book_new [exFileB] ''b2b'' (1, 1) = Some (TextCell ''2500'')
   \<and> cellAfter book_new [exFileB, exFileB] ''b2b'' (2, 1) = Some (NumCell (Finite 2500 0))"
  by code_simp

end
